theory Spec2Isabelle
  imports Main "HOL-Library.AList"
begin

section \<open>SceneExtension: the per-frame pose update of a 3D scene extension\<close>

text \<open>
  A shallow embedding of the class \<open>SceneExtension\<close>. The class is stateful: it owns a
  \<open>Map\<close> of renderables and the child list it inherits from \<open>THREE.Object3D\<close>, and it
  talks to its renderer (transform tree, settings sink, error sink, panel configuration).
  Every method becomes a function from the state before the call to the state after it.
  Renderables are JavaScript objects that the map and the child list share by reference,
  so the state holds a store from references to objects. Calls that leave the class
  (to the pose updater, the error sink, the settings sink, the configuration, a
  renderable's own \<open>dispose\<close>) are recorded, in order, in a log of the state.
\<close>

subsection \<open>Data\<close>

type_synonym frame_id = string
type_synonym path = "string list"
type_synonym ref = nat

text \<open>\<open>renderable.userData.settings\<close>: \<open>frameLocked\<close> is optional, \<open>None\<close> is the unset field.\<close>

record settings =
  visible :: bool
  frameLocked :: "bool option"

record userData =
  frameId :: frame_id
  messageTime :: int
  settings :: settings
  settingsPath :: path

text \<open>
  A renderable: its \<open>userData\<close>, the \<open>visible\<close> flag of \<open>THREE.Object3D\<close> (named
  \<open>object_visible\<close> here, the name \<open>visible\<close> being taken by the settings) and its resolved
  position and orientation. The core never looks inside a pose, so its type is a parameter.
\<close>

record 'p renderable =
  userData :: userData
  object_visible :: bool
  pose :: 'p

text \<open>
  Modelled from the spec: the Transform Tree is an external collaborator whose code is not
  among the sources. It is modelled by what it answers to the chain query of the pose
  updater (render frame, fixed frame, source frame, destination time, source time): the
  resolved pose, or \<open>None\<close> when no path exists at those times.
\<close>

type_synonym 'p transformTree =
  "frame_id \<Rightarrow> frame_id \<Rightarrow> frame_id \<Rightarrow> int \<Rightarrow> int \<Rightarrow> 'p option"

text \<open>
  A value of the panel configuration. \<open>JObj\<close> lists the own properties of an object in
  insertion order; arrays are objects whose keys are indices. \<open>JUndefined\<close> is a property
  that is present and holds \<open>undefined\<close>, as opposed to a property that is absent.
\<close>

datatype json =
    JUndefined
  | JNull
  | JBool bool
  | JNum int
  | JStr string
  | JObj "(string \<times> json) list"

text \<open>The calls that leave the class, with their arguments.\<close>

datatype 'n call =
    UpdatePose ref frame_id frame_id frame_id int int
  | ErrorsAdd path string string
  | ErrorsRemove path string
  | ErrorsClearPath path
  | RenderableDispose ref
  | SetNodesForKey string "'n list"
  | UpdateConfig

text \<open>
  The state of one scene extension and of the parts of its renderer it uses.
  \<open>renderables\<close> is the \<open>Map\<close> in insertion order, which is its iteration order;
  \<open>children\<close> is \<open>THREE.Object3D.children\<close>; \<open>objs\<close> is the store.
  \<open>errors\<close> is \<open>renderer.settings.errors\<close>, \<open>nodesForKey\<close> the settings sink,
  \<open>config\<close> the own properties of the panel configuration object.
\<close>

record ('p, 'n) scene =
  extensionId :: string
  renderables :: "(string \<times> ref) list"
  children :: "ref list"
  objs :: "ref \<Rightarrow> 'p renderable"
  transformTree :: "'p transformTree"
  errors :: "path \<Rightarrow> string \<rightharpoonup> string"
  nodesForKey :: "string \<rightharpoonup> 'n list"
  config :: "(string \<times> json) list"
  calls :: "'n call list"

subsection \<open>Collaborators\<close>

text \<open>
  Modelled from the spec: \<open>MISSING_TRANSFORM\<close> and \<open>missingTransformMessage\<close> are imported
  from \<open>./renderables/transforms\<close>, which is not among the sources. The spec fixes only
  that the message names the render frame, the fixed frame and the renderable's frame;
  its scenario expects the renderable's frame first, then the render frame, then the
  fixed frame. The words between the names are the model's.
\<close>

definition MISSING_TRANSFORM :: string where
  "MISSING_TRANSFORM = ''MISSING_TRANSFORM''"

definition missingTransformMessage :: "frame_id \<Rightarrow> frame_id \<Rightarrow> frame_id \<Rightarrow> string" where
  "missingTransformMessage renderFrameId fixedFrameId srcFrameId =
     ''Missing transform from frame <'' @ srcFrameId @ ''> to frame <'' @ renderFrameId
       @ ''> via fixed frame <'' @ fixedFrameId @ ''>''"

text \<open>
  Modelled from the spec: \<open>updatePose\<close> is imported from \<open>./updatePose\<close>, which is not among
  the sources. Section 4.2 of the spec: on success it writes the resolved pose onto the
  renderable and returns success; on failure it leaves the pose untouched and returns
  failure; it never throws, and it is deterministic in the tree and its arguments.
\<close>

definition updatePose ::
  "'p renderable \<Rightarrow> 'p transformTree \<Rightarrow> frame_id \<Rightarrow> frame_id \<Rightarrow> frame_id \<Rightarrow> int \<Rightarrow> int
     \<Rightarrow> 'p renderable \<times> bool" where
  "updatePose renderable tree renderFrameId fixedFrameId srcFrameId dstTime srcTime =
     (case tree renderFrameId fixedFrameId srcFrameId dstTime srcTime of
        None \<Rightarrow> (renderable, False)
      | Some p \<Rightarrow> (renderable\<lparr>pose := p\<rparr>, True))"

text \<open>
  Modelled from the spec: the error sink \<open>renderer.settings.errors\<close> (\<open>./LayerErrors\<close>) is
  not among the sources. Section 6 of the spec: a path-indexed error table with the
  operations \<open>add(path, errorKind, message)\<close>, \<open>remove(path, errorKind)\<close> and
  \<open>clearPath(path)\<close>; section 8: adding the same kind twice at a path leaves exactly one
  error there, with the latest message.
\<close>

definition errors_add :: "path \<Rightarrow> string \<Rightarrow> string \<Rightarrow> ('p, 'n) scene \<Rightarrow> ('p, 'n) scene" where
  "errors_add p errorId message s =
     s\<lparr>errors := (errors s)(p := (errors s p)(errorId \<mapsto> message)),
       calls := calls s @ [ErrorsAdd p errorId message]\<rparr>"

definition errors_remove :: "path \<Rightarrow> string \<Rightarrow> ('p, 'n) scene \<Rightarrow> ('p, 'n) scene" where
  "errors_remove p errorId s =
     s\<lparr>errors := (errors s)(p := (errors s p)(errorId := None)),
       calls := calls s @ [ErrorsRemove p errorId]\<rparr>"

definition errors_clearPath :: "path \<Rightarrow> ('p, 'n) scene \<Rightarrow> ('p, 'n) scene" where
  "errors_clearPath p s =
     s\<lparr>errors := (errors s)(p := Map.empty),
       calls := calls s @ [ErrorsClearPath p]\<rparr>"

text \<open>
  Modelled from the spec: the settings sink \<open>renderer.settings\<close> (\<open>./SettingsManager\<close>) is
  not among the sources. Section 6: a keyed registration \<open>setNodesForKey(extensionId, nodes)\<close>.
\<close>

definition setNodesForKey :: "string \<Rightarrow> 'n list \<Rightarrow> ('p, 'n) scene \<Rightarrow> ('p, 'n) scene" where
  "setNodesForKey key nodes s =
     s\<lparr>nodesForKey := (nodesForKey s)(key \<mapsto> nodes),
       calls := calls s @ [SetNodesForKey key nodes]\<rparr>"


text \<open>
  \<open>renderable.dispose()\<close> is a method of the renderable's own class; what it releases is
  not the extension's business. The model records that it was called.
\<close>

definition renderable_dispose :: "ref \<Rightarrow> ('p, 'n) scene \<Rightarrow> ('p, 'n) scene" where
  "renderable_dispose r s = s\<lparr>calls := calls s @ [RenderableDispose r]\<rparr>"

text \<open>
  \<open>THREE.Object3D.remove(object)\<close>, named \<open>remove_obj\<close> here: the object leaves the
  child list at the index \<open>indexOf\<close> finds, which is its first occurrence; an object
  that is no child is ignored. The parent link of the object is not part of the state.
\<close>

definition remove_obj :: "ref \<Rightarrow> ('p, 'n) scene \<Rightarrow> ('p, 'n) scene" where
  "remove_obj r s = s\<lparr>children := remove1 r (children s)\<rparr>"

subsection \<open>lodash \<open>set\<close> and \<open>unset\<close> on the configuration\<close>







subsection \<open>The methods of \<open>SceneExtension\<close>\<close>

text \<open>
  \<open>settingsNodes()\<close> is meant to be overridden, so the methods that call it take the
  override as an argument; it reads the state and changes nothing. This is the one of
  the base class.
\<close>

definition settingsNodes :: "('p, 'n) scene \<Rightarrow> 'n list" where
  "settingsNodes s = []"

definition updateSettingsTree ::
  "(('p, 'n) scene \<Rightarrow> 'n list) \<Rightarrow> ('p, 'n) scene \<Rightarrow> ('p, 'n) scene" where
  "updateSettingsTree sn s = setNodesForKey (extensionId s) (sn s) s"

definition dispose :: "('p, 'n) scene \<Rightarrow> ('p, 'n) scene" where
  "dispose s =
     (let s1 = fold renderable_dispose (map snd (renderables s)) s;
          s2 = s1\<lparr>children := []\<rparr>
      in s2\<lparr>renderables := []\<rparr>)"

definition removeAllRenderables_loop :: "ref list \<Rightarrow> ('p, 'n) scene \<Rightarrow> ('p, 'n) scene" where
  "removeAllRenderables_loop rs s = fold (\<lambda>r s. remove_obj r (renderable_dispose r s)) rs s"

definition removeAllRenderables ::
  "(('p, 'n) scene \<Rightarrow> 'n list) \<Rightarrow> ('p, 'n) scene \<Rightarrow> ('p, 'n) scene" where
  "removeAllRenderables sn s =
     (let s1 = removeAllRenderables_loop (map snd (renderables s)) s;
          s2 = s1\<lparr>renderables := []\<rparr>
      in updateSettingsTree sn s2)"


text \<open>
  The body of the loop of \<open>startFrame\<close> for one renderable, and the source time it
  computes: \<open>frameLocked ?? true\<close> is \<open>True\<close> for the unset field.
\<close>

definition startFrame_body ::
  "int \<Rightarrow> frame_id \<Rightarrow> frame_id \<Rightarrow> ref \<Rightarrow> ('p, 'n) scene \<Rightarrow> ('p, 'n) scene" where
  "startFrame_body currentTime renderFrameId fixedFrameId r s =
     (let p = settingsPath (userData (objs s r));
          renderable = (objs s r)\<lparr>object_visible := visible (settings (userData (objs s r)))\<rparr>;
          s = s\<lparr>objs := (objs s)(r := renderable)\<rparr>
      in if \<not> object_visible renderable then errors_clearPath p s
         else
           let locked = (case frameLocked (settings (userData renderable)) of
                           None \<Rightarrow> True | Some b \<Rightarrow> b);
               srcTime = (if locked then currentTime else messageTime (userData renderable));
               fid = frameId (userData renderable);
               res = updatePose renderable (transformTree s)
                       renderFrameId fixedFrameId fid currentTime srcTime;
               s = s\<lparr>objs := (objs s)(r := fst res),
                      calls := calls s @
                        [UpdatePose r renderFrameId fixedFrameId fid currentTime srcTime]\<rparr>
           in if \<not> snd res
              then errors_add p MISSING_TRANSFORM
                     (missingTransformMessage renderFrameId fixedFrameId fid) s
              else errors_remove p MISSING_TRANSFORM s)"

definition startFrame_loop ::
  "int \<Rightarrow> frame_id \<Rightarrow> frame_id \<Rightarrow> ref list \<Rightarrow> ('p, 'n) scene \<Rightarrow> ('p, 'n) scene" where
  "startFrame_loop currentTime renderFrameId fixedFrameId rs s =
     fold (startFrame_body currentTime renderFrameId fixedFrameId) rs s"

definition startFrame ::
  "int \<Rightarrow> frame_id \<Rightarrow> frame_id \<Rightarrow> ('p, 'n) scene \<Rightarrow> ('p, 'n) scene" where
  "startFrame currentTime renderFrameId fixedFrameId s =
     startFrame_loop currentTime renderFrameId fixedFrameId (map snd (renderables s)) s"

subsection \<open>The constructor and its deferred refresh\<close>

text \<open>
  The constructor does not call \<open>updateSettingsTree()\<close>; it hands the call to
  \<open>queueMicrotask\<close>. The state of the host therefore carries, beside the scene, the queue
  of microtasks; the only closure this class ever queues is the refresh.
\<close>

datatype microtask = RefreshSettingsTree

record ('p, 'n) host =
  ext :: "('p, 'n) scene"
  microtasks :: "microtask list"

text \<open>
  The constructor, lines 61 to 69: \<open>super()\<close> gives an object without children, the
  field initialiser gives an empty map, the identifier is stored, and the refresh is
  queued. The renderer handed to the constructor is the renderer part of the state.
\<close>

definition construct :: "string \<Rightarrow> ('p, 'n) host \<Rightarrow> ('p, 'n) host" where
  "construct extId h =
     \<lparr>ext = (ext h)\<lparr>extensionId := extId, renderables := [], children := []\<rparr>,
      microtasks = microtasks h @ [RefreshSettingsTree]\<rparr>"

text \<open>
  \<open>new\<close> on a derived class: the constructor of the base class runs, then the derived
  class assigns its own members (\<open>init\<close>), all in one synchronous call.
\<close>

definition new_extension ::
  "string \<Rightarrow> (('p, 'n) scene \<Rightarrow> ('p, 'n) scene) \<Rightarrow> ('p, 'n) host \<Rightarrow> ('p, 'n) host" where
  "new_extension extId init h =
     (let c = construct extId h in c\<lparr>ext := init (ext c)\<rparr>)"

text \<open>The render loop calling \<open>startFrame\<close>, as a task of its own.\<close>

definition frame_task :: "int \<Rightarrow> frame_id \<Rightarrow> frame_id \<Rightarrow> ('p, 'n) host \<Rightarrow> ('p, 'n) host" where
  "frame_task currentTime renderFrameId fixedFrameId h =
     h\<lparr>ext := startFrame currentTime renderFrameId fixedFrameId (ext h)\<rparr>"

text \<open>
  Modelled from the spec: the scheduler is the JavaScript runtime and the host's render
  loop, which are not among the sources. Sections 5 and 9 of the spec: one thread; a
  deferred callback runs as a later task on the same queue, after the current synchronous
  call has completed and strictly before the next frame tick, the queue being drained
  between frames. So a task runs to its end, then the queued microtasks run in order
  and the queue is empty when the next task starts.
\<close>

fun run_microtask ::
  "(('p, 'n) scene \<Rightarrow> 'n list) \<Rightarrow> microtask \<Rightarrow> ('p, 'n) host \<Rightarrow> ('p, 'n) host" where
  "run_microtask sn RefreshSettingsTree h = h\<lparr>ext := updateSettingsTree sn (ext h)\<rparr>"

definition drain :: "(('p, 'n) scene \<Rightarrow> 'n list) \<Rightarrow> ('p, 'n) host \<Rightarrow> ('p, 'n) host" where
  "drain sn h = (fold (run_microtask sn) (microtasks h) h)\<lparr>microtasks := []\<rparr>"

definition run_task ::
  "(('p, 'n) scene \<Rightarrow> 'n list) \<Rightarrow> (('p, 'n) host \<Rightarrow> ('p, 'n) host) \<Rightarrow> ('p, 'n) host
     \<Rightarrow> ('p, 'n) host" where
  "run_task sn task h = drain sn (task h)"

subsection \<open>The effect of the loop body, by component\<close>

text \<open>
  What one pass of the loop body does to the renderable it visits, to the error table and
  to the log, as functions of the tree, the arguments of \<open>startFrame\<close> and the renderable's
  \<open>userData\<close>. The lemmas \<open>body_objs\<close>, \<open>body_errors\<close> and \<open>body_calls\<close> below show that
  \<open>startFrame_body\<close> does exactly this.
\<close>

definition frame_update ::
  "'p transformTree \<Rightarrow> int \<Rightarrow> frame_id \<Rightarrow> frame_id \<Rightarrow> 'p renderable \<Rightarrow> 'p renderable" where
  "frame_update tree currentTime renderFrameId fixedFrameId x =
     (if visible (settings (userData x))
      then (case tree renderFrameId fixedFrameId (frameId (userData x)) currentTime
                   (if frameLocked (settings (userData x)) = Some False
                    then messageTime (userData x) else currentTime) of
              None \<Rightarrow> x\<lparr>object_visible := True\<rparr>
            | Some p \<Rightarrow> x\<lparr>object_visible := True, pose := p\<rparr>)
      else x\<lparr>object_visible := False\<rparr>)"


definition frame_errors ::
  "'p transformTree \<Rightarrow> int \<Rightarrow> frame_id \<Rightarrow> frame_id \<Rightarrow> userData
     \<Rightarrow> (path \<Rightarrow> string \<rightharpoonup> string) \<Rightarrow> (path \<Rightarrow> string \<rightharpoonup> string)" where
  "frame_errors tree currentTime renderFrameId fixedFrameId u E =
     (if visible (settings u)
      then (case tree renderFrameId fixedFrameId (frameId u) currentTime
                   (if frameLocked (settings u) = Some False
                    then messageTime u else currentTime) of
              None \<Rightarrow> E(settingsPath u := (E (settingsPath u))(MISSING_TRANSFORM \<mapsto>
                        missingTransformMessage renderFrameId fixedFrameId (frameId u)))
            | Some p \<Rightarrow> E(settingsPath u := (E (settingsPath u))(MISSING_TRANSFORM := None)))
      else E(settingsPath u := Map.empty))"


definition frame_calls ::
  "'p transformTree \<Rightarrow> int \<Rightarrow> frame_id \<Rightarrow> frame_id \<Rightarrow> ref \<Rightarrow> userData \<Rightarrow> 'n call list" where
  "frame_calls tree currentTime renderFrameId fixedFrameId r u =
     (if visible (settings u)
      then (let srcTime = (if frameLocked (settings u) = Some False
                           then messageTime u else currentTime)
            in [UpdatePose r renderFrameId fixedFrameId (frameId u) currentTime srcTime,
                (case tree renderFrameId fixedFrameId (frameId u) currentTime srcTime of
                   None \<Rightarrow> ErrorsAdd (settingsPath u) MISSING_TRANSFORM
                             (missingTransformMessage renderFrameId fixedFrameId (frameId u))
                 | Some p \<Rightarrow> ErrorsRemove (settingsPath u) MISSING_TRANSFORM)])
      else [ErrorsClearPath (settingsPath u)])"

text \<open>
  A function on error tables overwrites when it leaves each entry alone or sets it to a
  value that does not depend on the table.
\<close>

definition overwrites :: "((path \<Rightarrow> string \<rightharpoonup> string) \<Rightarrow> (path \<Rightarrow> string \<rightharpoonup> string)) \<Rightarrow> bool" where
  "overwrites f \<longleftrightarrow>
     (\<forall>p k. (\<forall>E. f E p k = E p k) \<or> (\<exists>v. \<forall>E. f E p k = v))"

subsection \<open>Calls to the error sink\<close>

fun errors_call :: "'n call \<Rightarrow> bool" where
  "errors_call (ErrorsAdd p k m) = True"
| "errors_call (ErrorsRemove p k) = True"
| "errors_call (ErrorsClearPath p) = True"
| "errors_call _ = False"

subsection \<open>An example scene\<close>

text \<open>
  The scenario of the spec: the render frame is \<open>base_link\<close>, the fixed frame \<open>map\<close>. The
  tree knows a path from \<open>odom\<close> only. Three renderables: \<open>/lidar\<close> is visible and
  frame-locked by default, \<open>/odom\<close> is visible and not frame-locked, \<open>/camera\<close> is
  hidden. Poses are integers here. The example override of \<open>settingsNodes\<close> gives one
  node for each renderable.
\<close>

definition demo_lidar :: "int renderable" where
  "demo_lidar =
     \<lparr>userData = \<lparr>frameId = ''lidar'', messageTime = 500,
                   settings = \<lparr>visible = True, frameLocked = None\<rparr>,
                   settingsPath = [''topics'', ''/lidar'']\<rparr>,
      object_visible = True, pose = 0\<rparr>"

definition demo_odom :: "int renderable" where
  "demo_odom =
     \<lparr>userData = \<lparr>frameId = ''odom'', messageTime = 700,
                   settings = \<lparr>visible = True, frameLocked = Some False\<rparr>,
                   settingsPath = [''topics'', ''/odom'']\<rparr>,
      object_visible = True, pose = 0\<rparr>"

definition demo_camera :: "int renderable" where
  "demo_camera =
     \<lparr>userData = \<lparr>frameId = ''camera'', messageTime = 900,
                   settings = \<lparr>visible = False, frameLocked = Some True\<rparr>,
                   settingsPath = [''topics'', ''/camera'']\<rparr>,
      object_visible = True, pose = 7\<rparr>"

definition demo_tree :: "int transformTree" where
  "demo_tree renderFrameId fixedFrameId srcFrameId dstTime srcTime =
     (if srcFrameId = ''odom'' then Some (dstTime - srcTime) else None)"

definition demo_scene :: "(int, string) scene" where
  "demo_scene =
     \<lparr>extensionId = ''foxglove.Markers'',
      renderables = [(''/lidar'', 10), (''/odom'', 11), (''/camera'', 12)],
      children = [10, 11, 12, 99],
      objs = (\<lambda>r. if r = 10 then demo_lidar else if r = 11 then demo_odom else demo_camera),
      transformTree = demo_tree,
      errors = (\<lambda>p. if p = [''topics'', ''/odom''] \<or> p = [''topics'', ''/camera'']
                     then [MISSING_TRANSFORM \<mapsto> ''stale''] else Map.empty),
      nodesForKey = Map.empty,
      config = [(''followTf'', JStr ''base_link'')],
      calls = []\<rparr>"

definition demo_settingsNodes :: "(int, string) scene \<Rightarrow> string list" where
  "demo_settingsNodes s = map fst (renderables s)"

text \<open>
  A host with the example scene and an empty queue, and a derived class whose members
  are assigned after the base constructor: it registers one renderable.
\<close>

definition demo_host :: "(int, string) host" where
  "demo_host = \<lparr>ext = demo_scene, microtasks = []\<rparr>"

definition demo_init :: "(int, string) scene \<Rightarrow> (int, string) scene" where
  "demo_init s = s\<lparr>renderables := [(''/lidar'', 10)], children := [10]\<rparr>"

section \<open>Properties\<close>

subsection \<open>The loop body and the loop\<close>

lemma body_objs:
  "objs (startFrame_body ct rf ff r s) =
     (objs s)(r := frame_update (transformTree s) ct rf ff (objs s r))"
  by (auto simp: startFrame_body_def frame_update_def Let_def updatePose_def
        errors_add_def errors_remove_def errors_clearPath_def split: option.splits)

lemma body_errors:
  "errors (startFrame_body ct rf ff r s) =
     frame_errors (transformTree s) ct rf ff (userData (objs s r)) (errors s)"
  by (auto simp: startFrame_body_def frame_errors_def Let_def updatePose_def
        errors_add_def errors_remove_def errors_clearPath_def split: option.splits)

lemma body_frame:
  "transformTree (startFrame_body ct rf ff r s) = transformTree s"
  "renderables (startFrame_body ct rf ff r s) = renderables s"
  "children (startFrame_body ct rf ff r s) = children s"
  "config (startFrame_body ct rf ff r s) = config s"
  "nodesForKey (startFrame_body ct rf ff r s) = nodesForKey s"
  "extensionId (startFrame_body ct rf ff r s) = extensionId s"
  by (auto simp: startFrame_body_def Let_def updatePose_def
        errors_add_def errors_remove_def errors_clearPath_def split: option.splits)

lemma frame_update_userData [simp]:
  "userData (frame_update T ct rf ff x) = userData x"
  by (simp add: frame_update_def split: option.splits)

lemma frame_update_idem:
  "frame_update T ct rf ff (frame_update T ct rf ff x) = frame_update T ct rf ff x"
  by (simp add: frame_update_def split: option.splits)

lemma frame_errors_idem:
  "frame_errors T ct rf ff u (frame_errors T ct rf ff u E) = frame_errors T ct rf ff u E"
  by (auto simp add: frame_errors_def split: option.splits)

lemma body_calls:
  "calls (startFrame_body ct rf ff r s) =
     calls s @ frame_calls (transformTree s) ct rf ff r (userData (objs s r))"
  by (auto simp: startFrame_body_def frame_calls_def Let_def updatePose_def
        errors_add_def errors_remove_def errors_clearPath_def split: option.splits)

lemma loop_Cons:
  "startFrame_loop ct rf ff (r # rs) s =
     startFrame_loop ct rf ff rs (startFrame_body ct rf ff r s)"
  by (simp add: startFrame_loop_def)

lemma loop_Nil: "startFrame_loop ct rf ff [] s = s"
  by (simp add: startFrame_loop_def)

lemma loop_append:
  "startFrame_loop ct rf ff (xs @ r # ys) s =
     startFrame_loop ct rf ff ys (startFrame_body ct rf ff r (startFrame_loop ct rf ff xs s))"
  by (simp add: startFrame_loop_def)

lemma loop_frame:
  "transformTree (startFrame_loop ct rf ff rs s) = transformTree s"
  "renderables (startFrame_loop ct rf ff rs s) = renderables s"
  "children (startFrame_loop ct rf ff rs s) = children s"
  "config (startFrame_loop ct rf ff rs s) = config s"
  "nodesForKey (startFrame_loop ct rf ff rs s) = nodesForKey s"
  "extensionId (startFrame_loop ct rf ff rs s) = extensionId s"
  by (induction rs arbitrary: s; simp add: loop_Nil loop_Cons body_frame)+

lemma loop_objs:
  "objs (startFrame_loop ct rf ff rs s) r =
     (if r \<in> set rs then frame_update (transformTree s) ct rf ff (objs s r) else objs s r)"
proof (induction rs arbitrary: s)
  case Nil
  show ?case by (simp add: loop_Nil)
next
  case (Cons a rs)
  show ?case
    by (simp add: loop_Cons Cons.IH body_frame body_objs frame_update_idem)
qed

lemma loop_userData:
  "userData (objs (startFrame_loop ct rf ff rs s) r) = userData (objs s r)"
  by (simp add: loop_objs)

lemma loop_errors:
  "errors (startFrame_loop ct rf ff rs s) =
     fold (\<lambda>r. frame_errors (transformTree s) ct rf ff (userData (objs s r))) rs (errors s)"
proof (induction rs arbitrary: s)
  case Nil
  show ?case by (simp add: loop_Nil)
next
  case (Cons a rs)
  have "(\<lambda>r. frame_errors (transformTree (startFrame_body ct rf ff a s)) ct rf ff
               (userData (objs (startFrame_body ct rf ff a s) r)))
        = (\<lambda>r. frame_errors (transformTree s) ct rf ff (userData (objs s r)))"
    by (rule ext) (simp add: body_frame body_objs)
  then show ?case
    by (simp add: loop_Cons Cons.IH body_errors)
qed

lemma loop_calls:
  fixes s :: "('p, 'n) scene"
  shows "calls (startFrame_loop ct rf ff rs s) =
     calls s @ concat (map (\<lambda>r. frame_calls (transformTree s) ct rf ff r (userData (objs s r))) rs)"
proof (induction rs arbitrary: s)
  case Nil
  show ?case by (simp add: loop_Nil)
next
  case (Cons a rs)
  have "(\<lambda>r. frame_calls (transformTree (startFrame_body ct rf ff a s)) ct rf ff r
               (userData (objs (startFrame_body ct rf ff a s) r)) :: 'n call list)
        = (\<lambda>r. frame_calls (transformTree s) ct rf ff r (userData (objs s r)))"
    by (rule ext) (simp add: body_frame body_objs)
  then show ?case
    by (simp add: loop_Cons Cons.IH body_calls)
qed

lemma overwrites_id: "overwrites (\<lambda>E. E)"
  by (simp add: overwrites_def)

lemma overwrites_comp:
  assumes "overwrites f" and "overwrites g"
  shows "overwrites (\<lambda>E. g (f E))"
  unfolding overwrites_def
proof (intro allI)
  fix p k
  from assms(2) consider "\<forall>E. g E p k = E p k" | "\<exists>v. \<forall>E. g E p k = v"
    unfolding overwrites_def by blast
  then show "(\<forall>E. g (f E) p k = E p k) \<or> (\<exists>v. \<forall>E. g (f E) p k = v)"
  proof cases
    case 1
    from assms(1) consider "\<forall>E. f E p k = E p k" | "\<exists>v. \<forall>E. f E p k = v"
      unfolding overwrites_def by blast
    then show ?thesis
    proof cases
      case 1
      with \<open>\<forall>E. g E p k = E p k\<close> show ?thesis by simp
    next
      case 2
      then obtain v where "\<forall>E. f E p k = v" ..
      with \<open>\<forall>E. g E p k = E p k\<close> have "\<forall>E. g (f E) p k = v" by simp
      then show ?thesis by blast
    qed
  next
    case 2
    then obtain v where "\<forall>E. g E p k = v" ..
    then have "\<forall>E. g (f E) p k = v" by simp
    then show ?thesis by blast
  qed
qed

lemma overwrites_idem:
  assumes "overwrites f"
  shows "f (f E) = f E"
proof (rule ext, rule ext)
  fix p k
  from assms consider "\<forall>E. f E p k = E p k" | "\<exists>v. \<forall>E. f E p k = v"
    unfolding overwrites_def by blast
  then show "f (f E) p k = f E p k"
  proof cases
    case 1
    then show ?thesis by simp
  next
    case 2
    then obtain v where "\<forall>E. f E p k = v" ..
    then show ?thesis by simp
  qed
qed

lemma overwrites_frame_errors: "overwrites (frame_errors T ct rf ff u)"
  unfolding overwrites_def
proof (intro allI)
  fix p k
  show "(\<forall>E. frame_errors T ct rf ff u E p k = E p k) \<or>
        (\<exists>v. \<forall>E. frame_errors T ct rf ff u E p k = v)"
  proof (cases "p = settingsPath u")
    case False
    then have "\<forall>E. frame_errors T ct rf ff u E p k = E p k"
      by (simp add: frame_errors_def split: option.splits)
    then show ?thesis ..
  next
    case True
    show ?thesis
    proof (cases "visible (settings u)")
      case False
      with True have "\<forall>E. frame_errors T ct rf ff u E p k = None"
        by (simp add: frame_errors_def)
      then show ?thesis by blast
    next
      case vis: True
      show ?thesis
      proof (cases "k = MISSING_TRANSFORM")
        case False
        with True vis have "\<forall>E. frame_errors T ct rf ff u E p k = E p k"
          by (simp add: frame_errors_def split: option.splits)
        then show ?thesis ..
      next
        case kk: True
        let ?q = "T rf ff (frameId u) ct
                   (if frameLocked (settings u) = Some False then messageTime u else ct)"
        show ?thesis
        proof (cases ?q)
          case None
          with True vis kk
          have "\<forall>E. frame_errors T ct rf ff u E p k =
                  Some (missingTransformMessage rf ff (frameId u))"
            by (simp add: frame_errors_def)
          then show ?thesis by blast
        next
          case (Some a)
          with True vis kk have "\<forall>E. frame_errors T ct rf ff u E p k = None"
            by (simp add: frame_errors_def)
          then show ?thesis by blast
        qed
      qed
    qed
  qed
qed

lemma overwrites_fold:
  "overwrites (\<lambda>E. fold (\<lambda>r. frame_errors T ct rf ff (h r)) rs E)"
proof (induction rs)
  case Nil
  show ?case by (simp add: overwrites_id)
next
  case (Cons a rs)
  have "overwrites (\<lambda>E. (\<lambda>E. fold (\<lambda>r. frame_errors T ct rf ff (h r)) rs E)
                         (frame_errors T ct rf ff (h a) E))"
    by (rule overwrites_comp [OF overwrites_frame_errors Cons.IH])
  then show ?case by simp
qed

subsection \<open>Teardown\<close>

lemma dispose_loop:
  "fold renderable_dispose rs s = s\<lparr>calls := calls s @ map RenderableDispose rs\<rparr>"
  by (induction rs arbitrary: s) (simp_all add: renderable_dispose_def)

lemma removeAllRenderables_loop_eq:
  "removeAllRenderables_loop rs s =
     s\<lparr>children := fold remove1 rs (children s),
       calls := calls s @ map RenderableDispose rs\<rparr>"
  unfolding removeAllRenderables_loop_def
  by (induction rs arbitrary: s) (simp_all add: renderable_dispose_def remove_obj_def)

lemma set_fold_remove1:
  "distinct cs \<Longrightarrow> set (fold remove1 rs cs) = set cs - set rs \<and> distinct (fold remove1 rs cs)"
  by (induction rs arbitrary: cs) auto

lemma filter_errors_call_dispose:
  "filter errors_call (map RenderableDispose rs) = []"
  by (induction rs) simp_all

subsection \<open>Reading back what \<open>set\<close> and \<open>unset\<close> wrote\<close>



subsection \<open>The loop at one renderable\<close>

lemma startFrame_split:
  assumes "renderables s = before @ (key, r) # after"
  shows "startFrame ct rf ff s =
           startFrame_loop ct rf ff (map snd after)
             (startFrame_body ct rf ff r (startFrame_loop ct rf ff (map snd before) s))"
  using assms by (simp add: startFrame_def loop_append)

lemma UpdatePose_in_frame_calls:
  "UpdatePose r a b c d e \<in> set (frame_calls T ct rf ff r' u) \<Longrightarrow> r' = r \<and> visible (settings u)"
  by (auto simp: frame_calls_def Let_def split: if_splits option.splits)

subsection \<open>The example scene\<close>

lemma demo_facts:
  "userData (objs demo_scene 10) = userData demo_lidar"
  "userData (objs demo_scene 11) = userData demo_odom"
  "userData (objs demo_scene 12) = userData demo_camera"
  "objs demo_scene 10 = demo_lidar"
  "objs demo_scene 11 = demo_odom"
  "objs demo_scene 12 = demo_camera"
  "transformTree demo_scene = demo_tree"
  "calls demo_scene = []"
  by (simp_all add: demo_scene_def)

subsection \<open>Claims about \<open>startFrame\<close>\<close>

text \<open>
  Claim C1. Take any renderable of the map that is visible, and let \<open>s1\<close> be the state
  in which the loop of \<open>startFrame\<close> reaches it and \<open>s2\<close> the state in which it leaves
  it. If the pose updater reports failure, \<open>s2\<close> has the \<open>MISSING_TRANSFORM\<close> error at the
  renderable's \<open>settingsPath\<close>, with the message made from the render frame, the fixed
  frame and the renderable's frame; it replaces whatever was there under that kind, and
  nothing else of the error table changes. If the updater reports success, the
  \<open>MISSING_TRANSFORM\<close> entry at that path is gone and nothing else changes. The loop then
  goes on with the renderables behind it.
\<close>

theorem startFrame_missing_transform:
  fixes s :: "('p, 'n) scene"
  assumes "renderables s = before @ (key, r) # after"
    and "visible (settings (userData (objs s r)))"
  shows "let s1 = startFrame_loop ct rf ff (map snd before) s;
             s2 = startFrame_body ct rf ff r s1;
             u = userData (objs s r);
             p = settingsPath u;
             srcTime = (if frameLocked (settings u) = Some False then messageTime u else ct);
             updated = snd (updatePose ((objs s1 r)\<lparr>object_visible := True\<rparr>) (transformTree s)
                              rf ff (frameId u) ct srcTime);
             message = missingTransformMessage rf ff (frameId u)
         in startFrame ct rf ff s = startFrame_loop ct rf ff (map snd after) s2 \<and>
            (\<not> updated \<longrightarrow>
               errors s2 = (errors s1)(p := (errors s1 p)(MISSING_TRANSFORM \<mapsto> message)) \<and>
               errors s2 p MISSING_TRANSFORM = Some message \<and>
               last (calls s2) = ErrorsAdd p MISSING_TRANSFORM message) \<and>
            (updated \<longrightarrow>
               errors s2 = (errors s1)(p := (errors s1 p)(MISSING_TRANSFORM := None)) \<and>
               errors s2 p MISSING_TRANSFORM = None \<and>
               last (calls s2) = ErrorsRemove p MISSING_TRANSFORM)"
  using assms(2)
  by (simp add: Let_def startFrame_split [OF assms(1)] body_errors body_calls loop_frame
        loop_userData frame_errors_def frame_calls_def updatePose_def split: option.splits)

text \<open>
  In the example, \<open>/lidar\<close> has no transform and gets the error; \<open>/odom\<close> has one and
  loses the stale error it had.
\<close>

theorem startFrame_missing_transform_witness:
  "renderables demo_scene = [] @ (''/lidar'', 10) # [(''/odom'', 11), (''/camera'', 12)] \<and>
   visible (settings (userData (objs demo_scene 10))) \<and>
   errors (startFrame_body 1000 ''base_link'' ''map'' 10 demo_scene) [''topics'', ''/lidar'']
     MISSING_TRANSFORM
     = Some ''Missing transform from frame <lidar> to frame <base_link> via fixed frame <map>'' \<and>
   renderables demo_scene = [(''/lidar'', 10)] @ (''/odom'', 11) # [(''/camera'', 12)] \<and>
   visible (settings (userData (objs demo_scene 11))) \<and>
   errors (startFrame_body 1000 ''base_link'' ''map'' 11
             (startFrame_loop 1000 ''base_link'' ''map'' [10] demo_scene)) [''topics'', ''/odom'']
     MISSING_TRANSFORM = None"
proof -
  have h1: "renderables demo_scene = [] @ (''/lidar'', 10) # [(''/odom'', 11), (''/camera'', 12)]"
    by (simp add: demo_scene_def demo_lidar_def demo_odom_def)
  have h2: "visible (settings (userData (objs demo_scene 10)))"
    by (simp add: demo_scene_def demo_lidar_def demo_odom_def)
  have h3: "renderables demo_scene = [(''/lidar'', 10)] @ (''/odom'', 11) # [(''/camera'', 12)]"
    by (simp add: demo_scene_def demo_lidar_def demo_odom_def)
  have h4: "visible (settings (userData (objs demo_scene 11)))"
    by (simp add: demo_scene_def demo_lidar_def demo_odom_def)
  have a: "errors (startFrame_body 1000 ''base_link'' ''map'' 10 demo_scene)
             [''topics'', ''/lidar''] MISSING_TRANSFORM
           = Some ''Missing transform from frame <lidar> to frame <base_link> via fixed frame <map>''"
    using startFrame_missing_transform [OF h1 h2, of 1000 "''base_link''" "''map''"]
    by (simp add: Let_def loop_Nil demo_facts updatePose_def demo_tree_def demo_lidar_def
          missingTransformMessage_def)
  have b: "errors (startFrame_body 1000 ''base_link'' ''map'' 11
             (startFrame_loop 1000 ''base_link'' ''map'' [10] demo_scene)) [''topics'', ''/odom'']
             MISSING_TRANSFORM = None"
    using startFrame_missing_transform [OF h3 h4, of 1000 "''base_link''" "''map''"]
    by (simp add: Let_def demo_facts updatePose_def demo_tree_def demo_odom_def)
  from h1 h2 h3 h4 a b show ?thesis by (intro conjI)
qed

text \<open>
  Claim C2. For a visible renderable, the pass of the loop applies the pose updater
  once, with source time \<open>currentTime\<close> when \<open>frameLocked\<close> is unset or true and with the
  renderable's \<open>messageTime\<close> when \<open>frameLocked\<close> is false: the renderable leaves the pass
  as the updater returns it for that source time, the error sink is told what the updater
  reports for that source time, and the log shows the call with that source time.
\<close>

theorem startFrame_source_time:
  fixes s :: "('p, 'n) scene"
  assumes "renderables s = before @ (key, r) # after"
    and "visible (settings (userData (objs s r)))"
  shows "let s1 = startFrame_loop ct rf ff (map snd before) s;
             s2 = startFrame_body ct rf ff r s1;
             u = userData (objs s r);
             p = settingsPath u;
             x = (objs s1 r)\<lparr>object_visible := True\<rparr>;
             locked = updatePose x (transformTree s) rf ff (frameId u) ct ct;
             pinned = updatePose x (transformTree s) rf ff (frameId u) ct (messageTime u);
             report = (\<lambda>updated. if updated then ErrorsRemove p MISSING_TRANSFORM
                        else ErrorsAdd p MISSING_TRANSFORM
                               (missingTransformMessage rf ff (frameId u)))
         in startFrame ct rf ff s = startFrame_loop ct rf ff (map snd after) s2 \<and>
            (frameLocked (settings u) = None \<or> frameLocked (settings u) = Some True \<longrightarrow>
               (\<exists>e. calls s2 = calls s1 @ [UpdatePose r rf ff (frameId u) ct ct, e]) \<and>
               objs s2 r = fst locked \<and>
               calls s2 = calls s1 @ [UpdatePose r rf ff (frameId u) ct ct, report (snd locked)]) \<and>
            (frameLocked (settings u) = Some False \<longrightarrow>
               (\<exists>e. calls s2 = calls s1 @ [UpdatePose r rf ff (frameId u) ct (messageTime u), e]) \<and>
               objs s2 r = fst pinned \<and>
               calls s2 = calls s1 @
                 [UpdatePose r rf ff (frameId u) ct (messageTime u), report (snd pinned)])"
  using assms(2)
  by (auto simp add: Let_def startFrame_split [OF assms(1)] body_calls body_objs loop_frame
        loop_userData frame_calls_def frame_update_def updatePose_def split: option.splits)

text \<open>
  In the example, \<open>/odom\<close> is not frame-locked: the tree is asked at its message time
  700 and gives the pose 300, where \<open>currentTime\<close> would have given 0.
\<close>

theorem startFrame_source_time_witness:
  "renderables demo_scene = [] @ (''/lidar'', 10) # [(''/odom'', 11), (''/camera'', 12)] \<and>
   visible (settings (userData (objs demo_scene 10))) \<and>
   frameLocked (settings (userData (objs demo_scene 10))) = None \<and>
   (\<exists>e. calls (startFrame_body 1000 ''base_link'' ''map'' 10 demo_scene)
          = [UpdatePose 10 ''base_link'' ''map'' ''lidar'' 1000 1000, e]) \<and>
   renderables demo_scene = [(''/lidar'', 10)] @ (''/odom'', 11) # [(''/camera'', 12)] \<and>
   visible (settings (userData (objs demo_scene 11))) \<and>
   frameLocked (settings (userData (objs demo_scene 11))) = Some False \<and>
   (\<exists>e. calls (startFrame_body 1000 ''base_link'' ''map'' 11
                  (startFrame_loop 1000 ''base_link'' ''map'' [10] demo_scene))
          = calls (startFrame_loop 1000 ''base_link'' ''map'' [10] demo_scene)
              @ [UpdatePose 11 ''base_link'' ''map'' ''odom'' 1000 700, e]) \<and>
   pose (objs (startFrame_body 1000 ''base_link'' ''map'' 11
                (startFrame_loop 1000 ''base_link'' ''map'' [10] demo_scene)) 11) = 300"
proof -
  have h1: "renderables demo_scene = [] @ (''/lidar'', 10) # [(''/odom'', 11), (''/camera'', 12)]"
    by (simp add: demo_scene_def)
  have h2: "visible (settings (userData (objs demo_scene 10)))"
    by (simp add: demo_facts demo_lidar_def)
  have h3: "frameLocked (settings (userData (objs demo_scene 10))) = None"
    by (simp add: demo_facts demo_lidar_def)
  have h4: "renderables demo_scene = [(''/lidar'', 10)] @ (''/odom'', 11) # [(''/camera'', 12)]"
    by (simp add: demo_scene_def)
  have h5: "visible (settings (userData (objs demo_scene 11)))"
    by (simp add: demo_facts demo_odom_def)
  have h6: "frameLocked (settings (userData (objs demo_scene 11))) = Some False"
    by (simp add: demo_facts demo_odom_def)
  note t1 = startFrame_source_time [OF h1 h2, where ct = 1000 and rf = "''base_link''"
      and ff = "''map''", unfolded Let_def, THEN conjunct2, THEN conjunct1, THEN mp,
      OF disjI1 [OF h3]]
  note t2 = startFrame_source_time [OF h4 h5, where ct = 1000 and rf = "''base_link''"
      and ff = "''map''", unfolded Let_def, THEN conjunct2, THEN conjunct2, THEN mp, OF h6]
  have a: "\<exists>e. calls (startFrame_body 1000 ''base_link'' ''map'' 10 demo_scene)
          = [UpdatePose 10 ''base_link'' ''map'' ''lidar'' 1000 1000, e]"
    using t1 [THEN conjunct1]
    by (simp add: loop_Nil demo_facts demo_lidar_def)
  have b: "\<exists>e. calls (startFrame_body 1000 ''base_link'' ''map'' 11
                  (startFrame_loop 1000 ''base_link'' ''map'' [10] demo_scene))
          = calls (startFrame_loop 1000 ''base_link'' ''map'' [10] demo_scene)
              @ [UpdatePose 11 ''base_link'' ''map'' ''odom'' 1000 700, e]"
    using t2 [THEN conjunct1]
    by (simp add: demo_facts demo_odom_def)
  have c: "pose (objs (startFrame_body 1000 ''base_link'' ''map'' 11
                (startFrame_loop 1000 ''base_link'' ''map'' [10] demo_scene)) 11) = 300"
    using t2 [THEN conjunct2, THEN conjunct1]
    by (simp add: loop_objs demo_facts demo_odom_def updatePose_def demo_tree_def)
  from h1 h2 h3 a h4 h5 h6 b c show ?thesis by (intro conjI)
qed

text \<open>
  Claim C3. For a renderable of the map whose \<open>settings.visible\<close> is false, the pass of the
  loop makes one call, \<open>clearPath\<close> at its settings path, after which that path holds no
  error; the whole call of \<open>startFrame\<close> makes no call of the pose updater for it, so the
  Transform Tree is not queried for it, and leaves its pose as it was.
\<close>

theorem startFrame_invisible:
  fixes s :: "('p, 'n) scene"
  assumes "renderables s = before @ (key, r) # after"
    and "\<not> visible (settings (userData (objs s r)))"
  shows "let s1 = startFrame_loop ct rf ff (map snd before) s;
             s2 = startFrame_body ct rf ff r s1;
             p = settingsPath (userData (objs s r))
         in startFrame ct rf ff s = startFrame_loop ct rf ff (map snd after) s2 \<and>
            calls s2 = calls s1 @ [ErrorsClearPath p] \<and>
            errors s2 = (errors s1)(p := Map.empty) \<and>
            errors s2 p MISSING_TRANSFORM = None \<and>
            pose (objs (startFrame ct rf ff s) r) = pose (objs s r) \<and>
            (\<forall>a b c d e. UpdatePose r a b c d e
                \<notin> set (drop (length (calls s)) (calls (startFrame ct rf ff s))))"
proof -
  have no_call: "UpdatePose r a b c d e
      \<notin> set (drop (length (calls s)) (calls (startFrame ct rf ff s)))" for a b c d e
    using assms(2) by (auto simp: startFrame_def loop_calls dest: UpdatePose_in_frame_calls)
  have pose_same: "pose (objs (startFrame ct rf ff s) r) = pose (objs s r)"
    using assms(2) by (simp add: startFrame_def loop_objs frame_update_def)
  show ?thesis
    using assms(2) no_call pose_same
    by (simp add: Let_def startFrame_split [OF assms(1), symmetric] body_errors body_calls
          loop_frame loop_userData frame_errors_def frame_calls_def)
qed

theorem startFrame_invisible_witness:
  "renderables demo_scene = [(''/lidar'', 10), (''/odom'', 11)] @ (''/camera'', 12) # [] \<and>
   \<not> visible (settings (userData (objs demo_scene 12))) \<and>
   errors demo_scene [''topics'', ''/camera''] MISSING_TRANSFORM = Some ''stale'' \<and>
   errors (startFrame 1000 ''base_link'' ''map'' demo_scene) [''topics'', ''/camera'']
     MISSING_TRANSFORM = None \<and>
   pose (objs (startFrame 1000 ''base_link'' ''map'' demo_scene) 12) = 7 \<and>
   UpdatePose 12 ''base_link'' ''map'' ''camera'' 1000 1000
     \<notin> set (calls (startFrame 1000 ''base_link'' ''map'' demo_scene))"
proof -
  let ?s1 = "startFrame_loop 1000 ''base_link'' ''map''
               (map snd [(''/lidar'', 10), (''/odom'', 11)]) demo_scene"
  let ?s2 = "startFrame_body 1000 ''base_link'' ''map'' 12 ?s1"
  let ?sf = "startFrame 1000 ''base_link'' ''map'' demo_scene"
  let ?p = "settingsPath (userData (objs demo_scene 12))"
  have h1: "renderables demo_scene = [(''/lidar'', 10), (''/odom'', 11)] @ (''/camera'', 12) # []"
    by (simp add: demo_scene_def)
  have h2: "\<not> visible (settings (userData (objs demo_scene 12)))"
    by (simp add: demo_facts demo_camera_def)
  have e: "errors demo_scene [''topics'', ''/camera''] MISSING_TRANSFORM = Some ''stale''"
    by (simp add: demo_scene_def)
  note t = startFrame_invisible [OF h1 h2, of 1000 "''base_link''" "''map''", unfolded Let_def]
  have eq: "?sf = startFrame_loop 1000 ''base_link'' ''map'' (map snd ([] :: (string \<times> ref) list)) ?s2"
    by (rule t [THEN conjunct1])
  have cleared: "errors ?s2 ?p MISSING_TRANSFORM = None"
    by (rule t [THEN conjunct2, THEN conjunct2, THEN conjunct2, THEN conjunct1])
  have kept: "pose (objs ?sf 12) = pose (objs demo_scene 12)"
    by (rule t [THEN conjunct2, THEN conjunct2, THEN conjunct2, THEN conjunct2,
                THEN conjunct1])
  have quiet: "UpdatePose 12 ''base_link'' ''map'' ''camera'' 1000 1000
                 \<notin> set (drop (length (calls demo_scene)) (calls ?sf))"
    by (rule t [THEN conjunct2, THEN conjunct2, THEN conjunct2, THEN conjunct2,
                THEN conjunct2, rule_format])
  have p: "?p = [''topics'', ''/camera'']"
    by (simp add: demo_facts demo_camera_def)
  have a: "errors ?sf [''topics'', ''/camera''] MISSING_TRANSFORM = None"
    using cleared by (simp add: eq loop_Nil p)
  have b: "pose (objs ?sf 12) = 7"
    using kept by (simp add: demo_facts demo_camera_def)
  have c: "UpdatePose 12 ''base_link'' ''map'' ''camera'' 1000 1000 \<notin> set (calls ?sf)"
    using quiet by (simp add: demo_facts)
  from h1 h2 e a b c show ?thesis by (intro conjI)
qed

text \<open>
  Claim C4. \<open>startFrame\<close> is idempotent: a second call with the same arguments, on the
  state the first call left and hence with the same Transform Tree, leaves every
  renderable (its pose and its visible flag) and the whole error table as the first
  call left them. The log of calls is not part of the claim: it grows with each call.
\<close>

theorem startFrame_idempotent:
  "objs (startFrame ct rf ff (startFrame ct rf ff s)) = objs (startFrame ct rf ff s) \<and>
   errors (startFrame ct rf ff (startFrame ct rf ff s)) = errors (startFrame ct rf ff s)"
proof
  show "objs (startFrame ct rf ff (startFrame ct rf ff s)) = objs (startFrame ct rf ff s)"
    by (rule ext) (simp add: startFrame_def loop_frame loop_objs frame_update_idem)
next
  let ?F = "\<lambda>E. fold (\<lambda>r. frame_errors (transformTree s) ct rf ff (userData (objs s r)))
                  (map snd (renderables s)) E"
  have same: "(\<lambda>r. frame_errors (transformTree s) ct rf ff
                 (userData (objs (startFrame_loop ct rf ff (map snd (renderables s)) s) r)))
        = (\<lambda>r. frame_errors (transformTree s) ct rf ff (userData (objs s r)))"
    by (rule ext) (simp add: loop_userData)
  have "errors (startFrame ct rf ff (startFrame ct rf ff s)) = ?F (?F (errors s))"
    by (simp add: startFrame_def loop_frame loop_errors same)
  also have "\<dots> = ?F (errors s)"
    by (rule overwrites_idem [OF overwrites_fold])
  also have "\<dots> = errors (startFrame ct rf ff s)"
    by (simp add: startFrame_def loop_errors)
  finally show "errors (startFrame ct rf ff (startFrame ct rf ff s))
                  = errors (startFrame ct rf ff s)" .
qed

text \<open>
  Claim C5. A missing transform stops nothing. \<open>startFrame\<close> is a total function of the
  state: the source has no \<open>throw\<close>, and the pose updater reports failure by its result.
  Every visible renderable of the map is passed to the pose updater in the call, whatever
  happened to the renderables before it, and ends as the updater leaves it when run on
  the renderable as it was before the call: what one renderable's update gives does not
  depend on any other renderable. A renderable whose update fails keeps its pose.
\<close>

theorem startFrame_failure_local:
  fixes s :: "('p, 'n) scene"
  assumes "(key, r) \<in> set (renderables s)"
    and "visible (settings (userData (objs s r)))"
  shows "let u = userData (objs s r);
             srcTime = (if frameLocked (settings u) = Some False then messageTime u else ct);
             res = updatePose ((objs s r)\<lparr>object_visible := True\<rparr>) (transformTree s)
                     rf ff (frameId u) ct srcTime
         in objs (startFrame ct rf ff s) r = fst res \<and>
            UpdatePose r rf ff (frameId u) ct srcTime
              \<in> set (drop (length (calls s)) (calls (startFrame ct rf ff s))) \<and>
            (\<not> snd res \<longrightarrow> pose (objs (startFrame ct rf ff s) r) = pose (objs s r))"
proof -
  have mem: "r \<in> set (map snd (renderables s))"
    using assms(1) by force
  have "UpdatePose r rf ff (frameId (userData (objs s r))) ct
          (if frameLocked (settings (userData (objs s r))) = Some False
           then messageTime (userData (objs s r)) else ct)
        \<in> set (frame_calls (transformTree s) ct rf ff r (userData (objs s r)) :: 'n call list)"
    using assms(2) by (simp add: frame_calls_def Let_def)
  moreover have "set (drop (length (calls s)) (calls (startFrame ct rf ff s))) =
      (\<Union>x \<in> set (renderables s).
         set (frame_calls (transformTree s) ct rf ff (snd x) (userData (objs s (snd x)))))"
    by (simp add: startFrame_def loop_calls)
  ultimately have call: "UpdatePose r rf ff (frameId (userData (objs s r))) ct
          (if frameLocked (settings (userData (objs s r))) = Some False
           then messageTime (userData (objs s r)) else ct)
        \<in> set (drop (length (calls s)) (calls (startFrame ct rf ff s)))"
    using assms(1) by force
  show ?thesis
    using assms(2) mem call
    by (auto simp: Let_def startFrame_def loop_objs frame_update_def updatePose_def
          split: option.splits)
qed

text \<open>
  In the example, \<open>/lidar\<close> comes first and fails; \<open>/odom\<close> behind it is still updated,
  at its own message time.
\<close>

theorem startFrame_failure_local_witness:
  "(''/lidar'', 10) \<in> set (renderables demo_scene) \<and>
   visible (settings (userData (objs demo_scene 10))) \<and>
   \<not> snd (updatePose ((objs demo_scene 10)\<lparr>object_visible := True\<rparr>) (transformTree demo_scene)
            ''base_link'' ''map'' ''lidar'' 1000 1000) \<and>
   pose (objs (startFrame 1000 ''base_link'' ''map'' demo_scene) 10) = pose (objs demo_scene 10) \<and>
   (''/odom'', 11) \<in> set (renderables demo_scene) \<and>
   visible (settings (userData (objs demo_scene 11))) \<and>
   pose (objs (startFrame 1000 ''base_link'' ''map'' demo_scene) 11) = 300 \<and>
   UpdatePose 11 ''base_link'' ''map'' ''odom'' 1000 700
     \<in> set (calls (startFrame 1000 ''base_link'' ''map'' demo_scene))"
proof -
  have h1: "(''/lidar'', 10) \<in> set (renderables demo_scene)"
    by (simp add: demo_scene_def)
  have h2: "visible (settings (userData (objs demo_scene 10)))"
    by (simp add: demo_facts demo_lidar_def)
  have h3: "\<not> snd (updatePose ((objs demo_scene 10)\<lparr>object_visible := True\<rparr>)
                   (transformTree demo_scene) ''base_link'' ''map'' ''lidar'' 1000 1000)"
    by (simp add: demo_facts updatePose_def demo_tree_def)
  have h4: "(''/odom'', 11) \<in> set (renderables demo_scene)"
    by (simp add: demo_scene_def)
  have h5: "visible (settings (userData (objs demo_scene 11)))"
    by (simp add: demo_facts demo_odom_def)
  have a: "pose (objs (startFrame 1000 ''base_link'' ''map'' demo_scene) 10)
             = pose (objs demo_scene 10)"
    using startFrame_failure_local [OF h1 h2, of 1000 "''base_link''" "''map''"] h3
    by (simp add: Let_def demo_facts demo_lidar_def updatePose_def demo_tree_def)
  have b: "pose (objs (startFrame 1000 ''base_link'' ''map'' demo_scene) 11) = 300 \<and>
           UpdatePose 11 ''base_link'' ''map'' ''odom'' 1000 700
             \<in> set (calls (startFrame 1000 ''base_link'' ''map'' demo_scene))"
    using startFrame_failure_local [OF h4 h5, of 1000 "''base_link''" "''map''"]
    by (simp add: Let_def demo_facts demo_odom_def updatePose_def demo_tree_def)
  from h1 h2 h3 a h4 h5 b show ?thesis by (intro conjI) simp_all
qed

subsection \<open>Claims about teardown\<close>

text \<open>
  Claim C6. After \<open>dispose()\<close> the map of renderables is empty, the extension has no
  child left, so no disposed renderable is a child, and \<open>dispose()\<close> has been called on
  every renderable the map held, once for each entry and in the order of the map.
\<close>

theorem dispose_releases_all:
  "renderables (dispose s) = [] \<and>
   children (dispose s) = [] \<and>
   calls (dispose s) = calls s @ map RenderableDispose (map snd (renderables s))"
  by (simp add: dispose_def Let_def dispose_loop)

text \<open>
  Claim C7. \<open>removeAllRenderables()\<close> calls \<open>dispose()\<close> on every renderable of the map,
  removes each from the children, and empties the map; only then, as its last call, it
  passes to the settings sink what \<open>settingsNodes()\<close> returns on the state with the empty
  map. When the children are distinct, as \<open>THREE.Object3D.add\<close> keeps them, no renderable
  of the map is a child afterwards. With the \<open>settingsNodes()\<close> of the base class the
  sink gets the empty list.
\<close>

theorem removeAllRenderables_refreshes:
  "let rs = map snd (renderables s);
       s1 = (removeAllRenderables_loop rs s)\<lparr>renderables := []\<rparr>;
       s' = removeAllRenderables sn s
   in renderables s1 = [] \<and>
      renderables s' = [] \<and>
      children s1 = fold remove1 rs (children s) \<and>
      children s' = fold remove1 rs (children s) \<and>
      (distinct (children s) \<longrightarrow> set (children s') = set (children s) - set rs) \<and>
      calls s' = calls s @ map RenderableDispose rs @ [SetNodesForKey (extensionId s) (sn s1)] \<and>
      nodesForKey s' (extensionId s) = Some (sn s1) \<and>
      nodesForKey (removeAllRenderables settingsNodes s) (extensionId s) = Some []"
  by (simp add: removeAllRenderables_def Let_def removeAllRenderables_loop_eq
        updateSettingsTree_def setNodesForKey_def set_fold_remove1 settingsNodes_def)

theorem removeAllRenderables_refreshes_witness:
  "distinct (children demo_scene) \<and>
   children demo_scene = [10, 11, 12, 99] \<and>
   set (children (removeAllRenderables demo_settingsNodes demo_scene)) = {99} \<and>
   renderables (removeAllRenderables demo_settingsNodes demo_scene) = [] \<and>
   nodesForKey (removeAllRenderables demo_settingsNodes demo_scene) ''foxglove.Markers''
     = Some [] \<and>
   calls (removeAllRenderables demo_settingsNodes demo_scene)
     = [RenderableDispose 10, RenderableDispose 11, RenderableDispose 12,
        SetNodesForKey ''foxglove.Markers'' []]"
proof -
  have h: "distinct (children demo_scene)" and c: "children demo_scene = [10, 11, 12, 99]"
    by (simp_all add: demo_scene_def)
  have a: "set (children (removeAllRenderables demo_settingsNodes demo_scene)) = {99} \<and>
   renderables (removeAllRenderables demo_settingsNodes demo_scene) = [] \<and>
   nodesForKey (removeAllRenderables demo_settingsNodes demo_scene) ''foxglove.Markers''
     = Some [] \<and>
   calls (removeAllRenderables demo_settingsNodes demo_scene)
     = [RenderableDispose 10, RenderableDispose 11, RenderableDispose 12,
        SetNodesForKey ''foxglove.Markers'' []]"
    using removeAllRenderables_refreshes [of demo_scene demo_settingsNodes] h
    by (simp add: Let_def demo_scene_def demo_settingsNodes_def)
  from h c a show ?thesis by (intro conjI) simp_all
qed

text \<open>
  Claim C10. Neither \<open>dispose()\<close> nor \<open>removeAllRenderables()\<close> touches the error sink:
  the error table is the same after as before, so the errors reported at the path of a
  renderable stay when the renderable is disposed and removed, and neither makes a call of
  the error sink.
\<close>

theorem teardown_keeps_errors:
  "errors (dispose s) = errors s \<and>
   errors (removeAllRenderables sn s) = errors s \<and>
   filter errors_call (calls (dispose s)) = filter errors_call (calls s) \<and>
   filter errors_call (calls (removeAllRenderables sn s)) = filter errors_call (calls s)"
  by (simp add: dispose_def removeAllRenderables_def Let_def removeAllRenderables_loop_eq
        dispose_loop updateSettingsTree_def setNodesForKey_def filter_errors_call_dispose)

subsection \<open>Claims about \<open>saveSetting\<close>\<close>




subsection \<open>Claims about the constructor\<close>

text \<open>
  Claim C9. The refresh of the settings tree that the constructor schedules is deferred.
  The constructor itself makes no call and leaves the settings sink as it was; it only
  queues the refresh. When the task that constructs the extension starts with an empty
  queue, the refresh runs at the end of that task, after the derived class has assigned
  its members: \<open>settingsNodes()\<close> is evaluated on the initialised state, as the last call
  of the task. The next frame is a later task, so \<open>startFrame\<close> runs on the state the
  refresh left, with the extension's nodes in the settings sink.
\<close>

theorem constructor_defers_refresh:
  fixes h :: "('p, 'n) host"
  assumes "microtasks h = []"
  shows "let c = construct extId h;
             s0 = init (ext c);
             h1 = run_task sn (new_extension extId init) h;
             h2 = run_task sn (frame_task ct rf ff) h1
         in calls (ext c) = calls (ext h) \<and>
            nodesForKey (ext c) = nodesForKey (ext h) \<and>
            microtasks c = [RefreshSettingsTree] \<and>
            ext h1 = updateSettingsTree sn s0 \<and>
            calls (ext h1) = calls s0 @ [SetNodesForKey (extensionId s0) (sn s0)] \<and>
            nodesForKey (ext h1) (extensionId s0) = Some (sn s0) \<and>
            microtasks h1 = [] \<and>
            ext h2 = startFrame ct rf ff (updateSettingsTree sn s0) \<and>
            nodesForKey (ext h2) (extensionId s0) = Some (sn s0)"
  using assms
  by (simp add: Let_def construct_def new_extension_def run_task_def drain_def frame_task_def
        updateSettingsTree_def setNodesForKey_def startFrame_def loop_frame)

text \<open>
  In the example the derived class registers \<open>/lidar\<close> after the base constructor; the
  sink holds no nodes when the constructor returns and the node of \<open>/lidar\<close> when the
  task ends.
\<close>

theorem constructor_defers_refresh_witness:
  "microtasks demo_host = [] \<and>
   nodesForKey (ext demo_host) ''foxglove.Markers'' = None \<and>
   nodesForKey (ext (construct ''foxglove.Markers'' demo_host)) ''foxglove.Markers'' = None \<and>
   nodesForKey (ext (run_task demo_settingsNodes (new_extension ''foxglove.Markers'' demo_init)
                       demo_host)) ''foxglove.Markers'' = Some [''/lidar''] \<and>
   ext (run_task demo_settingsNodes (frame_task 1000 ''base_link'' ''map'')
          (run_task demo_settingsNodes (new_extension ''foxglove.Markers'' demo_init) demo_host))
     = startFrame 1000 ''base_link'' ''map''
         (ext (run_task demo_settingsNodes (new_extension ''foxglove.Markers'' demo_init)
                 demo_host))"
proof -
  have h: "microtasks demo_host = []"
    by (simp add: demo_host_def)
  have n: "nodesForKey (ext demo_host) ''foxglove.Markers'' = None"
    by (simp add: demo_host_def demo_scene_def)
  note t = constructor_defers_refresh [OF h, where extId = "''foxglove.Markers''"
      and init = demo_init and sn = demo_settingsNodes and ct = 1000
      and rf = "''base_link''" and ff = "''map''", unfolded Let_def]
  have a: "nodesForKey (ext (construct ''foxglove.Markers'' demo_host)) ''foxglove.Markers''
             = None"
    using t [THEN conjunct2, THEN conjunct1] n by simp
  have e: "extensionId (demo_init (ext (construct ''foxglove.Markers'' demo_host)))
             = ''foxglove.Markers''"
    and v: "demo_settingsNodes (demo_init (ext (construct ''foxglove.Markers'' demo_host)))
             = [''/lidar'']"
    by (simp_all add: demo_init_def construct_def demo_settingsNodes_def)
  have b: "nodesForKey (ext (run_task demo_settingsNodes
                               (new_extension ''foxglove.Markers'' demo_init) demo_host))
             ''foxglove.Markers'' = Some [''/lidar'']"
    using t [THEN conjunct2, THEN conjunct2, THEN conjunct2, THEN conjunct2, THEN conjunct2,
             THEN conjunct1]
    by (simp add: e v)
  have c: "ext (run_task demo_settingsNodes (frame_task 1000 ''base_link'' ''map'')
          (run_task demo_settingsNodes (new_extension ''foxglove.Markers'' demo_init) demo_host))
     = startFrame 1000 ''base_link'' ''map''
         (ext (run_task demo_settingsNodes (new_extension ''foxglove.Markers'' demo_init)
                 demo_host))"
    using t [THEN conjunct2, THEN conjunct2, THEN conjunct2, THEN conjunct1]
      t [THEN conjunct2, THEN conjunct2, THEN conjunct2, THEN conjunct2, THEN conjunct2,
         THEN conjunct2, THEN conjunct2, THEN conjunct1]
    by simp
  from h n a b c show ?thesis by (intro conjI)
qed

end
